theory Spec2Isabelle
  imports Main "HOL-Library.Sublist"
begin

section \<open>JavaScript regular expressions\<close>

text \<open>
  The three regular-expression literals of the sources are embedded as terms of a small
  pattern language and run by one matcher (Brzozowski derivatives), so that each literal
  can be compared with the term that stands for it. A string is a list of 8-bit characters,
  each a code unit below 256 of the JavaScript string; the literals only name ASCII
  characters, and the line terminators among these code units are the two of
  \<open>line_terminator\<close>.
  \<^item> \<open>x{n}\<close> is \<open>times n x\<close>, a literal word is \<open>lit\<close>, a group only brackets;
  \<^item> \<open>.\<close> is any character but a line terminator;
  \<^item> \<open>Void\<close> (no word at all) only arises inside the matcher.
\<close>

datatype regex =
    Void
  | Epsilon
  | Chr char
  | Dot
  | Class "(char \<times> char) list"
  | Seq regex regex
  | Alt regex regex
  | Star regex

fun in_ranges :: "char \<Rightarrow> (char \<times> char) list \<Rightarrow> bool" where
  "in_ranges c [] = False"
| "in_ranges c ((lo, hi) # rs) =
     (((of_char lo :: nat) \<le> of_char c \<and> (of_char c :: nat) \<le> of_char hi) \<or> in_ranges c rs)"

definition line_terminator :: "char \<Rightarrow> bool" where
  "line_terminator c = (c = CHR 0x0A \<or> c = CHR 0x0D)"

fun nullable :: "regex \<Rightarrow> bool" where
  "nullable Void = False"
| "nullable Epsilon = True"
| "nullable (Chr c) = False"
| "nullable Dot = False"
| "nullable (Class rs) = False"
| "nullable (Seq r s) = (nullable r \<and> nullable s)"
| "nullable (Alt r s) = (nullable r \<or> nullable s)"
| "nullable (Star r) = True"

fun deriv :: "char \<Rightarrow> regex \<Rightarrow> regex" where
  "deriv a Void = Void"
| "deriv a Epsilon = Void"
| "deriv a (Chr c) = (if a = c then Epsilon else Void)"
| "deriv a Dot = (if line_terminator a then Void else Epsilon)"
| "deriv a (Class rs) = (if in_ranges a rs then Epsilon else Void)"
| "deriv a (Seq r s) =
     (if nullable r then Alt (Seq (deriv a r) s) (deriv a s) else Seq (deriv a r) s)"
| "deriv a (Alt r s) = Alt (deriv a r) (deriv a s)"
| "deriv a (Star r) = Seq (deriv a r) (Star r)"

text \<open>\<open>matches r w\<close>: the whole of \<open>w\<close> is a word of \<open>r\<close>, which is what
  \<open>/^r$/.test(w)\<close> asks (no flags: \<open>$\<close> is the end of the input only).\<close>

fun matches :: "regex \<Rightarrow> string \<Rightarrow> bool" where
  "matches r [] = nullable r"
| "matches r (c # cs) = matches (deriv c r) cs"

fun matches_prefix :: "regex \<Rightarrow> string \<Rightarrow> bool" where
  "matches_prefix r [] = nullable r"
| "matches_prefix r (c # cs) = (nullable r \<or> matches_prefix (deriv c r) cs)"

text \<open>\<open>regex_test r w\<close>: some stretch of \<open>w\<close> is a word of \<open>r\<close>, which is what
  \<open>/r/.test(w)\<close> asks of a pattern without anchors.\<close>

fun regex_test :: "regex \<Rightarrow> string \<Rightarrow> bool" where
  "regex_test r [] = nullable r"
| "regex_test r (c # cs) = (matches_prefix r (c # cs) \<or> regex_test r cs)"

fun lit :: "string \<Rightarrow> regex" where
  "lit [] = Epsilon"
| "lit (c # cs) = Seq (Chr c) (lit cs)"

fun times :: "nat \<Rightarrow> regex \<Rightarrow> regex" where
  "times 0 r = Epsilon"
| "times (Suc n) r = Seq r (times n r)"

text \<open>The words of a pattern, as sets: the reference the matcher is proved against.\<close>

definition conc :: "string set \<Rightarrow> string set \<Rightarrow> string set" where
  "conc A B = {u @ v | u v. u \<in> A \<and> v \<in> B}"

inductive_set star :: "string set \<Rightarrow> string set" for A :: "string set" where
  star_nil: "[] \<in> star A"
| star_app: "u \<in> A \<Longrightarrow> v \<in> star A \<Longrightarrow> u @ v \<in> star A"

fun lang :: "regex \<Rightarrow> string set" where
  "lang Void = {}"
| "lang Epsilon = {[]}"
| "lang (Chr c) = {[c]}"
| "lang Dot = {[c] | c. \<not> line_terminator c}"
| "lang (Class rs) = {[c] | c. in_ranges c rs}"
| "lang (Seq r s) = conc (lang r) (lang s)"
| "lang (Alt r s) = lang r \<union> lang s"
| "lang (Star r) = star (lang r)"

section \<open>The HTTP client and the errors\<close>

text \<open>
  The HTTP client is the axios library, which is not part of this repository. What the
  sources use of it is modelled here: a response, a request configuration, the value a
  request is rejected with, a settled promise of a response, and an instance, which holds
  its default configuration and sends what it is asked to send.
\<close>

record AxiosResponse =
  status :: int
  statusText :: string
  data :: string

record AxiosRequestConfig =
  url :: "string option"
  http_method :: "string option"
  baseURL :: "string option"
  timeout :: "nat option"
  headers :: "string \<rightharpoonup> string"

text \<open>What a request is rejected with: its \<open>message\<close>, whether it is an
  \<open>instanceof TypeError\<close>, and its \<open>response\<close> when it carries one.\<close>

record AxiosError =
  message :: string
  instanceof_TypeError :: bool
  response :: "AxiosResponse option"

datatype AxiosPromise = fulfilled AxiosResponse | rejected AxiosError

record AxiosInstance =
  defaults :: AxiosRequestConfig
  adapter :: "AxiosRequestConfig \<Rightarrow> AxiosPromise"

text \<open>
  Modelled from the spec: a request is issued with its configuration merged over the
  defaults of the instance, and a field the configuration sets wins; headers are merged
  name by name. \<open>axios.create\<close> merges the configuration it is given over the
  defaults of the library in the same way.
\<close>

fun or_else :: "'a option \<Rightarrow> 'a option \<Rightarrow> 'a option" where
  "or_else (Some v) d = Some v"
| "or_else None d = d"

definition mergeConfig :: "AxiosRequestConfig \<Rightarrow> AxiosRequestConfig \<Rightarrow> AxiosRequestConfig" where
  "mergeConfig config1 config2 =
     \<lparr>url = or_else (url config2) (url config1),
      http_method = or_else (http_method config2) (http_method config1),
      baseURL = or_else (baseURL config2) (baseURL config1),
      timeout = or_else (timeout config2) (timeout config1),
      headers = headers config1 ++ headers config2\<rparr>"

definition axios_create ::
  "(AxiosRequestConfig \<Rightarrow> AxiosPromise) \<Rightarrow> AxiosRequestConfig \<Rightarrow> AxiosRequestConfig \<Rightarrow> AxiosInstance" where
  "axios_create network library_defaults config =
     \<lparr>defaults = mergeConfig library_defaults config, adapter = network\<rparr>"

definition AxiosInstance_request :: "AxiosInstance \<Rightarrow> AxiosRequestConfig \<Rightarrow> AxiosPromise" where
  "AxiosInstance_request client config = adapter client (mergeConfig (defaults client) config)"

text \<open>
  \<open>LogicError\<close> and \<open>TestCompromisedError\<close> are the two error classes the sources
  throw by name, with their message and, when one is passed, the rejection that caused
  them. \<open>ValidationError\<close> is the \<open>Error\<close> that \<open>ensure\<close> of the tiny-types
  library throws when a predicate fails; its message is
  \<open><description> should <what the predicate asks>\<close>.
\<close>

datatype error =
    LogicError string "AxiosError option"
  | TestCompromisedError string "AxiosError option"
  | ValidationError string

section \<open>Artifact.ts\<close>

text \<open>\<open>/^([A-Za-z0-9+/]{4})*([A-Za-z0-9+/]{4}|[A-Za-z0-9+/]{3}=|[A-Za-z0-9+/]{2}==)$/\<close>\<close>

definition base64_alphabet :: regex where
  "base64_alphabet =
     Class [(CHR ''A'', CHR ''Z''), (CHR ''a'', CHR ''z''), (CHR ''0'', CHR ''9''),
            (CHR ''+'', CHR ''+''), (CHR ''/'', CHR ''/'')]"

definition base64_regex :: regex where
  "base64_regex =
     Seq (Star (times 4 base64_alphabet))
       (Alt (times 4 base64_alphabet)
         (Alt (Seq (times 3 base64_alphabet) (Chr CHR ''=''))
              (Seq (times 2 base64_alphabet) (lit ''==''))))"

definition looksLikeBase64Encoded :: "string \<Rightarrow> bool" where
  "looksLikeBase64Encoded v = matches base64_regex v"

text \<open>
  A class of the module \<open>./artifacts\<close> (not among the sources at hand): what the base
  class reads of it is its name, \<open>this.constructor.name\<close>. The module itself is the
  parameter \<open>artifacts\<close> of the functions below, the list of its exports in the order of
  \<open>Object.keys\<close>: export name and class.
\<close>

datatype ArtifactType = ArtifactType (class_name: string)

record Artifact =
  constructor_name :: string
  base64EncodedValue :: string

record SerialisedArtifact =
  json_type :: string
  json_base64EncodedValue :: string

text \<open>
  \<open>new V(base64EncodedValue)\<close> for a class \<open>V\<close> that extends \<open>Artifact\<close>. The
  argument is a string by its type, so of the three predicates handed to \<open>ensure\<close> only
  \<open>looksLikeBase64Encoded\<close> can fail.

  Modelled from the spec: the concrete classes of \<open>./artifacts\<close> are not at hand; they
  differ only in how \<open>map\<close> reads the decoded bytes, so their constructors do what the
  constructor of the base class does.
\<close>

definition new_Artifact :: "ArtifactType \<Rightarrow> string \<Rightarrow> error + Artifact" where
  "new_Artifact V v =
     (if looksLikeBase64Encoded v
      then Inr \<lparr>constructor_name = class_name V, base64EncodedValue = v\<rparr>
      else Inl (ValidationError (class_name V @ '' should be base64-encoded'')))"

definition toJSON :: "Artifact \<Rightarrow> SerialisedArtifact" where
  "toJSON this =
     \<lparr>json_type = constructor_name this, json_base64EncodedValue = base64EncodedValue this\<rparr>"

text \<open>\<open>artifacts[type]\<close>: a property is read under a string key, and \<open>undefined\<close>
  (what \<open>find\<close> returns when nothing is found) becomes the key \<open>"undefined"\<close>.\<close>

fun property_key :: "string option \<Rightarrow> string" where
  "property_key None = ''undefined''"
| "property_key (Some k) = k"

definition ofType :: "(string \<times> ArtifactType) list \<Rightarrow> string \<Rightarrow> ArtifactType option" where
  "ofType artifacts name =
     (let types = map fst artifacts;
          type = find (\<lambda>constructorName. constructorName = name) types
      in map_of artifacts (property_key type))"

fun join :: "string \<Rightarrow> string list \<Rightarrow> string" where
  "join sep [] = []"
| "join sep [x] = x"
| "join sep (x # y # ys) = x @ sep @ join sep (y # ys)"

definition unknown_type_message :: "string \<Rightarrow> string list \<Rightarrow> string" where
  "unknown_type_message t recognisedTypes =
     [CHR 0x0A] @ replicate 16 CHR '' '' @
     ''Couldn't de-serialise artifact of an unknown type.'' @
     [CHR 0x0A] @ replicate 16 CHR '' '' @
     t @ '' is not one of the recognised types: '' @ join '', '' recognisedTypes @
     [CHR 0x0A] @ replicate 11 CHR '' ''"

definition fromJSON :: "(string \<times> ArtifactType) list \<Rightarrow> SerialisedArtifact \<Rightarrow> error + Artifact" where
  "fromJSON artifacts json =
     (let recognisedTypes = map fst artifacts;
          type = ofType artifacts (json_type json)
      in case type of
           None \<Rightarrow> Inl (LogicError (unknown_type_message (json_type json) recognisedTypes) None)
         | Some V \<Rightarrow> new_Artifact V (json_base64EncodedValue json))"

text \<open>The expression \<open>Artifact.fromJSON(new V(s).toJSON())\<close>: when the constructor
  throws, nothing after it runs.\<close>

definition round_trip ::
  "(string \<times> ArtifactType) list \<Rightarrow> ArtifactType \<Rightarrow> string \<Rightarrow> error + Artifact" where
  "round_trip artifacts V s =
     (case new_Artifact V s of
        Inl e \<Rightarrow> Inl e
      | Inr a \<Rightarrow> fromJSON artifacts (toJSON a))"

text \<open>
  The specification's well-formed base64: quartets of characters of the base64 alphabet,
  the last of which may end in one or two padding characters. It is written from the
  specification's words, to be compared with \<open>looksLikeBase64Encoded\<close>. The encoding of
  no bytes at all, the empty string, is made of no quartet and is well-formed.
\<close>

definition base64_char :: "char \<Rightarrow> bool" where
  "base64_char c =
     (c \<in> set ''ABCDEFGHIJKLMNOPQRSTUVWXYZabcdefghijklmnopqrstuvwxyz0123456789+/'')"

definition last_quartet :: "char \<Rightarrow> char \<Rightarrow> char \<Rightarrow> char \<Rightarrow> bool" where
  "last_quartet a b c d =
     (base64_char a \<and> base64_char b \<and>
      (base64_char c \<and> base64_char d \<or>
       base64_char c \<and> d = CHR ''='' \<or>
       c = CHR ''='' \<and> d = CHR ''=''))"

fun well_formed_base64 :: "string \<Rightarrow> bool" where
  "well_formed_base64 [] = True"
| "well_formed_base64 [a, b, c, d] = last_quartet a b c d"
| "well_formed_base64 (a # b # c # d # rest) =
     (base64_char a \<and> base64_char b \<and> base64_char c \<and> base64_char d \<and>
      well_formed_base64 rest)"
| "well_formed_base64 _ = False"

definition quartets :: "string set" where
  "quartets = {[a, b, c, d] | a b c d.
     base64_char a \<and> base64_char b \<and> base64_char c \<and> base64_char d}"

definition final_quartets :: "string set" where
  "final_quartets = {[a, b, c, d] | a b c d. last_quartet a b c d}"

section \<open>CallAnApi.ts\<close>

text \<open>\<open>/timeout.*exceeded/\<close> and \<open>/Network Error/\<close>\<close>

definition timeout_exceeded :: regex where
  "timeout_exceeded = Seq (lit ''timeout'') (Seq (Star Dot) (lit ''exceeded''))"

definition Network_Error :: regex where
  "Network_Error = lit ''Network Error''"

record CallAnApi =
  axiosInstance :: AxiosInstance
  lastResponse :: "AxiosResponse option"

definition new_CallAnApi :: "AxiosInstance \<Rightarrow> CallAnApi" where
  "new_CallAnApi client = \<lparr>axiosInstance = client, lastResponse = None\<rparr>"

text \<open>\<open>CallAnApi.at\<close>; its first argument stands for \<open>axios.create\<close>.\<close>

definition at :: "(AxiosRequestConfig \<Rightarrow> AxiosInstance) \<Rightarrow> string \<Rightarrow> CallAnApi" where
  "at create baseURL' =
     new_CallAnApi (create
       \<lparr>url = None, http_method = None, baseURL = Some baseURL', timeout = Some 2000,
        headers = [''Accept'' \<mapsto> ''application/json,application/xml'']\<rparr>)"

text \<open>\<open>CallAnApi.using\<close>\<close>

definition using' :: "AxiosInstance \<Rightarrow> CallAnApi" where
  "using' client = new_CallAnApi client"

text \<open>\<open>fn\<close> is what the caller's function does to the object it is handed; what it
  returns is dropped.\<close>

definition modifyConfig :: "CallAnApi \<Rightarrow> (AxiosRequestConfig \<Rightarrow> AxiosRequestConfig) \<Rightarrow> CallAnApi" where
  "modifyConfig this fn =
     this\<lparr>axiosInstance := (axiosInstance this)\<lparr>defaults := fn (defaults (axiosInstance this))\<rparr>\<rparr>"

definition mapLastResponse :: "CallAnApi \<Rightarrow> (AxiosResponse \<Rightarrow> 'a) \<Rightarrow> error + 'a" where
  "mapLastResponse this fn =
     (case lastResponse this of
        None \<Rightarrow>
          Inl (LogicError
            ''Make sure to perform a HTTP API call before checking on the response'' None)
      | Some r \<Rightarrow> Inr (fn r))"

text \<open>The promise \<open>captureResponseOf\<close> returns, once settled, and the capability as
  the handler leaves it: \<open>Inl\<close> is what the promise rejects with, \<open>Inr\<close> what it
  resolves with.\<close>

definition captureResponseOf ::
  "CallAnApi \<Rightarrow> AxiosPromise \<Rightarrow> (error + AxiosResponse) \<times> CallAnApi" where
  "captureResponseOf this promisedResponse =
     (case promisedResponse of
        fulfilled r \<Rightarrow> (Inr r, this\<lparr>lastResponse := Some r\<rparr>)
      | rejected e \<Rightarrow>
          if regex_test timeout_exceeded (message e)
            then (Inl (TestCompromisedError ''The request has timed out'' (Some e)), this)
          else if regex_test Network_Error (message e)
            then (Inl (TestCompromisedError ''A network error has occurred'' (Some e)), this)
          else if instanceof_TypeError e
            then (Inl (LogicError
                   ''Looks like there was an issue with Axios configuration'' (Some e)), this)
          else (case response e of
                  None \<Rightarrow> (Inl (TestCompromisedError ''The API call has failed'' (Some e)), this)
                | Some r \<Rightarrow> (Inr r, this\<lparr>lastResponse := Some r\<rparr>)))"

definition request ::
  "CallAnApi \<Rightarrow> AxiosRequestConfig \<Rightarrow> (error + AxiosResponse) \<times> CallAnApi" where
  "request this config =
     captureResponseOf this (AxiosInstance_request (axiosInstance this) config)"

section \<open>Sample values\<close>

text \<open>A registry with three classes, a client that rejects every request with a given
  value, a response, the empty configuration \<open>{}\<close> and the function
  \<open>cfg => cfg.headers[name] = v\<close>: the concrete inputs the theorems are run on.\<close>

definition sample_artifacts :: "(string \<times> ArtifactType) list" where
  "sample_artifacts =
     [(''JSONData'', ArtifactType ''JSONData''), (''Photo'', ArtifactType ''Photo''),
      (''TextData'', ArtifactType ''TextData'')]"

definition rejecting :: "AxiosError \<Rightarrow> AxiosRequestConfig \<Rightarrow> AxiosPromise" where
  "rejecting e config = rejected e"

definition not_found :: AxiosResponse where
  "not_found = \<lparr>status = 404, statusText = ''Not Found'', data = []\<rparr>"

definition empty_config :: AxiosRequestConfig where
  "empty_config =
     \<lparr>url = None, http_method = None, baseURL = None, timeout = None, headers = Map.empty\<rparr>"

definition set_header :: "string \<Rightarrow> string \<Rightarrow> AxiosRequestConfig \<Rightarrow> AxiosRequestConfig" where
  "set_header name v cfg = cfg\<lparr>headers := (headers cfg)(name \<mapsto> v)\<rparr>"

definition failing_client :: "AxiosError \<Rightarrow> AxiosInstance" where
  "failing_client e = \<lparr>defaults = empty_config, adapter = rejecting e\<rparr>"

definition timed_out :: AxiosError where
  "timed_out =
     \<lparr>message = ''timeout of 2000ms exceeded'', instanceof_TypeError = False, response = None\<rparr>"

definition network_down :: AxiosError where
  "network_down =
     \<lparr>message = ''Network Error'', instanceof_TypeError = False, response = None\<rparr>"

definition misconfigured :: AxiosError where
  "misconfigured =
     \<lparr>message = ''url.replace is not a function'', instanceof_TypeError = True,
      response = None\<rparr>"

definition refused :: AxiosError where
  "refused =
     \<lparr>message = ''connect ECONNREFUSED 127.0.0.1:80'', instanceof_TypeError = False,
      response = None\<rparr>"

definition status_404 :: AxiosError where
  "status_404 =
     \<lparr>message = ''Request failed with status code 404'', instanceof_TypeError = False,
      response = Some not_found\<rparr>"

definition timed_out_with_response :: AxiosError where
  "timed_out_with_response =
     \<lparr>message = ''timeout of 2000ms exceeded'', instanceof_TypeError = False,
      response = Some not_found\<rparr>"

text \<open>A client that answers every request with the value of the header \<open>X\<close> it was
  sent.\<close>

definition echoing :: "AxiosRequestConfig \<Rightarrow> AxiosPromise" where
  "echoing config =
     fulfilled \<lparr>status = 200, statusText = ''OK'',
       data = (case headers config ''X'' of None \<Rightarrow> [] | Some v \<Rightarrow> v)\<rparr>"

section \<open>The matcher decides the words of a pattern\<close>

lemma conc_nil_iff: "[] \<in> conc A B \<longleftrightarrow> [] \<in> A \<and> [] \<in> B"
  by (auto simp: conc_def)

lemma conc_cons_iff:
  "c # w \<in> conc A B \<longleftrightarrow>
     (\<exists>u v. w = u @ v \<and> c # u \<in> A \<and> v \<in> B) \<or> ([] \<in> A \<and> c # w \<in> B)"
  by (auto simp: conc_def Cons_eq_append_conv)

lemma star_cons_iff:
  "c # w \<in> star A \<longleftrightarrow> (\<exists>u v. w = u @ v \<and> c # u \<in> A \<and> v \<in> star A)"
proof
  assume "c # w \<in> star A"
  then show "\<exists>u v. w = u @ v \<and> c # u \<in> A \<and> v \<in> star A"
  proof (induction "c # w" rule: star.induct)
    case (star_app u v)
    then show ?case
      by (cases u) auto
  qed
next
  assume "\<exists>u v. w = u @ v \<and> c # u \<in> A \<and> v \<in> star A"
  then obtain u v where "w = u @ v" "c # u \<in> A" "v \<in> star A" by blast
  then show "c # w \<in> star A"
    using star.star_app [of "c # u" A v] by simp
qed

lemma nullable_lang: "nullable r \<longleftrightarrow> [] \<in> lang r"
  by (induction r) (auto simp: conc_nil_iff intro: star.star_nil)

lemma deriv_lang: "w \<in> lang (deriv c r) \<longleftrightarrow> c # w \<in> lang r"
proof (induction r arbitrary: w)
  case (Seq r s)
  have "w \<in> lang (deriv c (Seq r s)) \<longleftrightarrow>
          (\<exists>u v. w = u @ v \<and> u \<in> lang (deriv c r) \<and> v \<in> lang s) \<or>
          (nullable r \<and> w \<in> lang (deriv c s))"
    by (auto simp: conc_def)
  also have "\<dots> \<longleftrightarrow>
          (\<exists>u v. w = u @ v \<and> c # u \<in> lang r \<and> v \<in> lang s) \<or>
          ([] \<in> lang r \<and> c # w \<in> lang s)"
    by (simp add: Seq.IH nullable_lang)
  also have "\<dots> \<longleftrightarrow> c # w \<in> lang (Seq r s)"
    by (simp add: conc_cons_iff)
  finally show ?case .
next
  case (Star r)
  have "w \<in> lang (deriv c (Star r)) \<longleftrightarrow>
          (\<exists>u v. w = u @ v \<and> u \<in> lang (deriv c r) \<and> v \<in> star (lang r))"
    by (auto simp: conc_def)
  also have "\<dots> \<longleftrightarrow> c # w \<in> lang (Star r)"
    by (simp add: Star.IH star_cons_iff)
  finally show ?case .
qed auto

lemma matches_lang: "matches r w \<longleftrightarrow> w \<in> lang r"
  by (induction w arbitrary: r) (auto simp: nullable_lang deriv_lang)

lemma matches_prefix_lang: "matches_prefix r w \<longleftrightarrow> (\<exists>u v. w = u @ v \<and> u \<in> lang r)"
proof (induction w arbitrary: r)
  case Nil
  then show ?case by (simp add: nullable_lang)
next
  case (Cons c w)
  show ?case
  proof
    assume "matches_prefix r (c # w)"
    then consider "nullable r" | "matches_prefix (deriv c r) w" by auto
    then show "\<exists>u v. c # w = u @ v \<and> u \<in> lang r"
    proof cases
      case 1
      then have "c # w = [] @ (c # w) \<and> [] \<in> lang r" by (simp add: nullable_lang)
      then show ?thesis by blast
    next
      case 2
      then obtain u v where "w = u @ v" "u \<in> lang (deriv c r)" using Cons.IH by blast
      then have "c # w = (c # u) @ v \<and> c # u \<in> lang r" by (simp add: deriv_lang)
      then show ?thesis by blast
    qed
  next
    assume "\<exists>u v. c # w = u @ v \<and> u \<in> lang r"
    then obtain u v where uv: "c # w = u @ v" "u \<in> lang r" by blast
    show "matches_prefix r (c # w)"
    proof (cases u)
      case Nil
      with uv have "nullable r" by (simp add: nullable_lang)
      then show ?thesis by simp
    next
      case (Cons a u')
      with uv have "w = u' @ v" "u' \<in> lang (deriv c r)" by (auto simp: deriv_lang)
      then have "matches_prefix (deriv c r) w" using Cons.IH by blast
      then show ?thesis by simp
    qed
  qed
qed

lemma regex_test_lang: "regex_test r w \<longleftrightarrow> (\<exists>p u s. w = p @ u @ s \<and> u \<in> lang r)"
proof (induction w)
  case Nil
  then show ?case by (simp add: nullable_lang)
next
  case (Cons c w)
  show ?case
  proof
    assume "regex_test r (c # w)"
    then consider "matches_prefix r (c # w)" | "regex_test r w" by auto
    then show "\<exists>p u s. c # w = p @ u @ s \<and> u \<in> lang r"
    proof cases
      case 1
      then obtain u v where "c # w = u @ v" "u \<in> lang r"
        unfolding matches_prefix_lang by blast
      then have "c # w = [] @ u @ v \<and> u \<in> lang r" by simp
      then show ?thesis by blast
    next
      case 2
      then obtain p u s where "w = p @ u @ s" "u \<in> lang r" using Cons.IH by blast
      then have "c # w = (c # p) @ u @ s \<and> u \<in> lang r" by simp
      then show ?thesis by blast
    qed
  next
    assume "\<exists>p u s. c # w = p @ u @ s \<and> u \<in> lang r"
    then obtain p u s where pus: "c # w = p @ u @ s" "u \<in> lang r" by blast
    show "regex_test r (c # w)"
    proof (cases p)
      case Nil
      with pus have "matches_prefix r (c # w)"
        unfolding matches_prefix_lang by auto
      then show ?thesis by simp
    next
      case (Cons a p')
      with pus have "w = p' @ u @ s" by simp
      with pus have "regex_test r w" using Cons.IH by blast
      then show ?thesis by simp
    qed
  qed
qed

section \<open>The base64 pattern and well-formed base64\<close>

lemma base64_codes:
  "map of_char ''ABCDEFGHIJKLMNOPQRSTUVWXYZabcdefghijklmnopqrstuvwxyz0123456789+/''
     = [65..<91] @ [97..<123] @ [48..<58] @ [43, 47 :: nat]"
  by (simp add: upt_rec_numeral)

lemma base64_char_code:
  "base64_char c \<longleftrightarrow>
     (65 \<le> (of_char c :: nat) \<and> (of_char c :: nat) \<le> 90) \<or>
     (97 \<le> (of_char c :: nat) \<and> (of_char c :: nat) \<le> 122) \<or>
     (48 \<le> (of_char c :: nat) \<and> (of_char c :: nat) \<le> 57) \<or>
     (of_char c :: nat) = 43 \<or> (of_char c :: nat) = 47"
proof -
  have "base64_char c \<longleftrightarrow> (of_char c :: nat) \<in> of_char `
      set ''ABCDEFGHIJKLMNOPQRSTUVWXYZabcdefghijklmnopqrstuvwxyz0123456789+/''"
    unfolding base64_char_def by (simp only: inj_image_mem_iff [OF inj_of_char])
  also have "\<dots> \<longleftrightarrow> (of_char c :: nat) \<in> set ([65..<91] @ [97..<123] @ [48..<58] @ [43, 47])"
    by (simp only: base64_codes [symmetric] set_map)
  also have "\<dots> \<longleftrightarrow> (65 \<le> (of_char c :: nat) \<and> (of_char c :: nat) \<le> 90) \<or>
     (97 \<le> (of_char c :: nat) \<and> (of_char c :: nat) \<le> 122) \<or>
     (48 \<le> (of_char c :: nat) \<and> (of_char c :: nat) \<le> 57) \<or>
     (of_char c :: nat) = 43 \<or> (of_char c :: nat) = 47"
    by (simp only: set_append set_upt Un_iff atLeastLessThan_iff set_simps insert_iff empty_iff)
       arith
  finally show ?thesis .
qed

lemma base64_alphabet_char:
  "in_ranges c [(CHR ''A'', CHR ''Z''), (CHR ''a'', CHR ''z''), (CHR ''0'', CHR ''9''),
            (CHR ''+'', CHR ''+''), (CHR ''/'', CHR ''/'')] \<longleftrightarrow> base64_char c"
  by (simp add: base64_char_code) arith

lemma conc_star_unfold:
  "w \<in> conc (star A) B \<longleftrightarrow> w \<in> B \<or> (\<exists>q r. w = q @ r \<and> q \<in> A \<and> r \<in> conc (star A) B)"
proof
  assume "w \<in> conc (star A) B"
  then obtain u v where w: "w = u @ v" and u: "u \<in> star A" and v: "v \<in> B"
    by (auto simp: conc_def)
  from u show "w \<in> B \<or> (\<exists>q r. w = q @ r \<and> q \<in> A \<and> r \<in> conc (star A) B)"
  proof (cases rule: star.cases)
    case star_nil
    with w v show ?thesis by simp
  next
    case (star_app q u')
    with w v have "w = q @ (u' @ v) \<and> q \<in> A \<and> u' @ v \<in> conc (star A) B"
      by (auto simp: conc_def)
    then show ?thesis by blast
  qed
next
  assume "w \<in> B \<or> (\<exists>q r. w = q @ r \<and> q \<in> A \<and> r \<in> conc (star A) B)"
  then show "w \<in> conc (star A) B"
  proof
    assume "w \<in> B"
    then have "w = [] @ w \<and> [] \<in> star A \<and> w \<in> B" by (simp add: star.star_nil)
    then show ?thesis unfolding conc_def by blast
  next
    assume "\<exists>q r. w = q @ r \<and> q \<in> A \<and> r \<in> conc (star A) B"
    then obtain q u v where "w = q @ u @ v" "q \<in> A" "u \<in> star A" "v \<in> B"
      by (auto simp: conc_def)
    then have "w = (q @ u) @ v \<and> q @ u \<in> star A \<and> v \<in> B"
      by (simp add: star.star_app)
    then show ?thesis unfolding conc_def by blast
  qed
qed

lemma quartets_iff:
  "q \<in> quartets \<longleftrightarrow>
     (\<exists>a b c d. q = [a, b, c, d] \<and>
        base64_char a \<and> base64_char b \<and> base64_char c \<and> base64_char d)"
  unfolding quartets_def by simp

lemma conc_chars_iff:
  "w \<in> conc {[c] | c. P c} B \<longleftrightarrow> (\<exists>c v. w = c # v \<and> P c \<and> v \<in> B)"
proof
  assume "w \<in> conc {[c] | c. P c} B"
  then show "\<exists>c v. w = c # v \<and> P c \<and> v \<in> B"
    by (auto simp: conc_def)
next
  assume "\<exists>c v. w = c # v \<and> P c \<and> v \<in> B"
  then obtain c v where "w = [c] @ v" "P c" "v \<in> B" by auto
  then show "w \<in> conc {[c] | c. P c} B"
    unfolding conc_def by blast
qed

lemma lang_base64_alphabet: "lang base64_alphabet = {[c] | c. base64_char c}"
  by (simp only: base64_alphabet_def lang.simps base64_alphabet_char)

lemma times_unfold:
  "times 4 r = Seq r (Seq r (Seq r (Seq r Epsilon)))"
  "times 3 r = Seq r (Seq r (Seq r Epsilon))"
  "times 2 r = Seq r (Seq r Epsilon)"
  by (simp_all add: numeral_eq_Suc)


lemma in_lang_times_4:
  "w \<in> lang (times 4 base64_alphabet) \<longleftrightarrow>
     (\<exists>a b c d. w = [a, b, c, d] \<and>
        base64_char a \<and> base64_char b \<and> base64_char c \<and> base64_char d)"
  by (auto simp: times_unfold lang_base64_alphabet conc_chars_iff)

lemma conc_word_iff: "w \<in> conc A {s} \<longleftrightarrow> (\<exists>u. w = u @ s \<and> u \<in> A)"
  by (auto simp: conc_def)

lemma in_lang_times_3:
  "u \<in> lang (times 3 base64_alphabet) \<longleftrightarrow>
     (\<exists>a b c. u = [a, b, c] \<and> base64_char a \<and> base64_char b \<and> base64_char c)"
  by (auto simp: times_unfold lang_base64_alphabet conc_chars_iff)

lemma in_lang_times_2:
  "u \<in> lang (times 2 base64_alphabet) \<longleftrightarrow>
     (\<exists>a b. u = [a, b] \<and> base64_char a \<and> base64_char b)"
  by (auto simp: times_unfold lang_base64_alphabet conc_chars_iff)

lemma lang_lit_pad: "lang (lit ''=='') = {''==''}"
  by (simp add: conc_def)

lemma in_lang_times_3_pad:
  "w \<in> lang (Seq (times 3 base64_alphabet) (Chr CHR ''='')) \<longleftrightarrow>
     (\<exists>a b c. w = [a, b, c, CHR ''=''] \<and> base64_char a \<and> base64_char b \<and> base64_char c)"
  unfolding lang.simps(6) lang.simps(3) conc_word_iff in_lang_times_3 by auto

lemma in_lang_times_2_pad:
  "w \<in> lang (Seq (times 2 base64_alphabet) (lit ''=='')) \<longleftrightarrow>
     (\<exists>a b. w = [a, b, CHR ''='', CHR ''=''] \<and> base64_char a \<and> base64_char b)"
  unfolding lang.simps(6) lang_lit_pad conc_word_iff in_lang_times_2 by auto

lemma final_quartets_iff:
  "w \<in> final_quartets \<longleftrightarrow> (\<exists>a b c d. w = [a, b, c, d] \<and> last_quartet a b c d)"
  unfolding final_quartets_def by simp

lemma lang_times_4: "lang (times 4 base64_alphabet) = quartets"
  by (rule set_eqI) (simp only: in_lang_times_4 quartets_iff)

lemma lang_final:
  "lang (Alt (times 4 base64_alphabet)
         (Alt (Seq (times 3 base64_alphabet) (Chr CHR ''=''))
              (Seq (times 2 base64_alphabet) (lit ''==''))))
   = final_quartets"
proof (rule set_eqI)
  fix w
  show "w \<in> lang (Alt (times 4 base64_alphabet)
         (Alt (Seq (times 3 base64_alphabet) (Chr CHR ''=''))
              (Seq (times 2 base64_alphabet) (lit ''==''))))
     \<longleftrightarrow> w \<in> final_quartets"
    unfolding lang.simps(7) Un_iff in_lang_times_4 in_lang_times_3_pad in_lang_times_2_pad
      final_quartets_iff last_quartet_def
    by auto
qed

lemma lang_base64_regex: "lang base64_regex = conc (star quartets) final_quartets"
  unfolding base64_regex_def lang.simps(6) lang.simps(8) lang_times_4 lang_final ..

lemma quartets_step:
  "w \<in> conc (star quartets) final_quartets \<longleftrightarrow>
     w \<in> final_quartets \<or>
     (\<exists>a b c d r. w = a # b # c # d # r \<and>
        base64_char a \<and> base64_char b \<and> base64_char c \<and> base64_char d \<and>
        r \<in> conc (star quartets) final_quartets)"
  (is "?L \<longleftrightarrow> ?F \<or> ?R")
proof
  assume ?L
  then consider ?F
    | q r where "w = q @ r" "q \<in> quartets" "r \<in> conc (star quartets) final_quartets"
    using conc_star_unfold [of w quartets final_quartets] by blast
  then show "?F \<or> ?R"
  proof cases
    case 1
    then show ?thesis by simp
  next
    case 2
    from 2(2) obtain a b c d where "q = [a, b, c, d]"
      "base64_char a" "base64_char b" "base64_char c" "base64_char d"
      unfolding quartets_iff by blast
    with 2 have ?R by simp
    then show ?thesis by simp
  qed
next
  assume "?F \<or> ?R"
  then show ?L
  proof
    assume ?F
    then show ?L using conc_star_unfold [of w quartets final_quartets] by blast
  next
    assume ?R
    then obtain a b c d r where w: "w = [a, b, c, d] @ r"
      and q: "base64_char a" "base64_char b" "base64_char c" "base64_char d"
      and r: "r \<in> conc (star quartets) final_quartets"
      by auto
    from q have "[a, b, c, d] \<in> quartets" unfolding quartets_iff by blast
    with w r show ?L using conc_star_unfold [of w quartets final_quartets] by blast
  qed
qed

lemma empty_not_quartets: "[] \<notin> conc (star quartets) final_quartets"
  by (subst quartets_step) (simp add: final_quartets_def)

lemma short_not_quartets:
  assumes "length w < 4"
  shows "w \<notin> conc (star quartets) final_quartets"
  using assms by (subst quartets_step) (auto simp: final_quartets_iff)

lemma quartets_well_formed:
  "w \<in> conc (star quartets) final_quartets \<longleftrightarrow> w \<noteq> [] \<and> well_formed_base64 w"
proof (induction w rule: well_formed_base64.induct)
  case 1
  show ?case by (simp add: empty_not_quartets)
next
  case (2 a b c d)
  show ?case
    by (subst quartets_step) (simp add: final_quartets_iff empty_not_quartets)
next
  case (3 a b c d e rest)
  have "a # b # c # d # e # rest \<in> conc (star quartets) final_quartets \<longleftrightarrow>
        base64_char a \<and> base64_char b \<and> base64_char c \<and> base64_char d \<and>
        e # rest \<in> conc (star quartets) final_quartets"
    by (subst quartets_step) (simp add: final_quartets_iff)
  then show ?case using 3 by simp
qed (simp_all add: short_not_quartets)

lemma looksLikeBase64Encoded_iff:
  "looksLikeBase64Encoded v \<longleftrightarrow> v \<noteq> [] \<and> well_formed_base64 v"
  by (simp add: looksLikeBase64Encoded_def matches_lang lang_base64_regex quartets_well_formed)

section \<open>The two message patterns\<close>

lemma lang_lit: "lang (lit w) = {w}"
  by (induction w) (auto simp: conc_def)

lemma star_Dot: "star (lang Dot) = {g. \<forall>c \<in> set g. \<not> line_terminator c}"
proof (intro set_eqI iffI)
  fix g
  assume "g \<in> star (lang Dot)"
  then show "g \<in> {g. \<forall>c \<in> set g. \<not> line_terminator c}"
    by (induction rule: star.induct) auto
next
  fix g
  assume "g \<in> {g. \<forall>c \<in> set g. \<not> line_terminator c}"
  then show "g \<in> star (lang Dot)"
  proof (induction g)
    case Nil
    show ?case by (rule star.star_nil)
  next
    case (Cons c g)
    then have "[c] \<in> lang Dot" and "g \<in> star (lang Dot)" by simp_all
    then have "[c] @ g \<in> star (lang Dot)" by (rule star.star_app)
    then show ?case by simp
  qed
qed

text \<open>\<open>/Network Error/\<close> asks whether the message holds the words "Network Error".\<close>

lemma regex_test_Network_Error:
  "regex_test Network_Error m \<longleftrightarrow> sublist ''Network Error'' m"
  unfolding regex_test_lang Network_Error_def lang_lit sublist_def by simp

text \<open>\<open>/timeout.*exceeded/\<close> asks whether the message holds "timeout" and, later on
  the same line, "exceeded".\<close>

lemma regex_test_timeout_exceeded:
  "regex_test timeout_exceeded m \<longleftrightarrow>
     (\<exists>p g s. m = p @ ''timeout'' @ g @ ''exceeded'' @ s \<and> (\<forall>c \<in> set g. \<not> line_terminator c))"
proof -
  have "lang timeout_exceeded =
      {''timeout'' @ g @ ''exceeded'' | g. \<forall>c \<in> set g. \<not> line_terminator c}"
    unfolding timeout_exceeded_def lang.simps(6) lang.simps(8) lang_lit star_Dot
    by (auto simp: conc_def)
  then have l: "\<And>u. u \<in> lang timeout_exceeded \<longleftrightarrow>
      (\<exists>g. u = ''timeout'' @ g @ ''exceeded'' \<and> (\<forall>c \<in> set g. \<not> line_terminator c))"
    by simp
  show ?thesis
  proof
    assume "regex_test timeout_exceeded m"
    then obtain p u s where "m = p @ u @ s" "u \<in> lang timeout_exceeded"
      unfolding regex_test_lang by blast
    then obtain g where "m = p @ (''timeout'' @ g @ ''exceeded'') @ s"
      "\<forall>c \<in> set g. \<not> line_terminator c"
      unfolding l by blast
    then have "m = p @ ''timeout'' @ g @ ''exceeded'' @ s \<and> (\<forall>c \<in> set g. \<not> line_terminator c)"
      by simp
    then show "\<exists>p g s. m = p @ ''timeout'' @ g @ ''exceeded'' @ s \<and>
        (\<forall>c \<in> set g. \<not> line_terminator c)"
      by blast
  next
    assume "\<exists>p g s. m = p @ ''timeout'' @ g @ ''exceeded'' @ s \<and>
        (\<forall>c \<in> set g. \<not> line_terminator c)"
    then obtain p g s where m: "m = p @ ''timeout'' @ g @ ''exceeded'' @ s"
      and g: "\<forall>c \<in> set g. \<not> line_terminator c"
      by blast
    from g have "''timeout'' @ g @ ''exceeded'' \<in> lang timeout_exceeded"
      unfolding l by blast
    moreover from m have "m = p @ (''timeout'' @ g @ ''exceeded'') @ s" by simp
    ultimately show "regex_test timeout_exceeded m"
      unfolding regex_test_lang by blast
  qed
qed

section \<open>Lookups, messages and sample requests\<close>

lemma sublist_prepend: "sublist xs ys \<Longrightarrow> sublist xs (zs @ ys)"
  unfolding sublist_def by (metis append_assoc)

lemma sublist_chain: "sublist xs ys \<Longrightarrow> sublist ys zs \<Longrightarrow> sublist xs zs"
  by (rule sublist_order.order_trans)

lemma sublist_join: "k \<in> set ks \<Longrightarrow> sublist k (join sep ks)"
proof (induction sep ks rule: join.induct)
  case (1 sep)
  then show ?case by simp
next
  case (2 sep x)
  then show ?case by simp
next
  case (3 sep x y ys)
  show ?case
  proof (cases "k = x")
    case True
    then show ?thesis by simp
  next
    case False
    with 3 have "sublist k (join sep (y # ys))" by simp
    then show ?thesis by (simp add: sublist_append)
  qed
qed

lemma sublist_unknown_type_message:
  "sublist (t @ '' is not one of the recognised types: '' @ join '', '' ks)
     (unknown_type_message t ks)"
proof -
  have "unknown_type_message t ks =
      ([CHR 0x0A] @ replicate 16 CHR '' '' @
       ''Couldn't de-serialise artifact of an unknown type.'' @
       [CHR 0x0A] @ replicate 16 CHR '' '') @
      (t @ '' is not one of the recognised types: '' @ join '', '' ks) @
      ([CHR 0x0A] @ replicate 11 CHR '' '')"
    unfolding unknown_type_message_def by (simp only: append_assoc)
  then show ?thesis by (simp only: sublist_appendI)
qed

lemma ofType_registered:
  assumes "name \<in> set (map fst artifacts)"
  shows "ofType artifacts name = map_of artifacts name"
proof -
  from assms
  have "find (\<lambda>constructorName. constructorName = name) (map fst artifacts) = Some name"
    by (induction artifacts) auto
  then show ?thesis by (simp add: ofType_def)
qed

lemma ofType_unregistered:
  assumes "name \<notin> set (map fst artifacts)" and "''undefined'' \<notin> set (map fst artifacts)"
  shows "ofType artifacts name = None"
proof -
  from assms(1)
  have "find (\<lambda>constructorName. constructorName = name) (map fst artifacts) = None"
    by (induction artifacts) auto
  moreover from assms(2) have "map_of artifacts ''undefined'' = None"
    by (simp add: map_of_eq_None_iff)
  ultimately show ?thesis by (simp add: ofType_def)
qed

lemma map_of_registered:
  assumes "name \<in> set (map fst artifacts)"
  shows "\<exists>V. map_of artifacts name = Some V \<and> (name, V) \<in> set artifacts"
proof (cases "map_of artifacts name")
  case None
  with assms show ?thesis by (simp add: map_of_eq_None_iff)
next
  case (Some V)
  then show ?thesis by (simp add: map_of_SomeD)
qed

lemma fromJSON_registered:
  assumes "map_of artifacts name = Some V"
  shows "fromJSON artifacts \<lparr>json_type = name, json_base64EncodedValue = v\<rparr> = new_Artifact V v"
proof -
  from assms have "name \<in> set (map fst artifacts)"
    by (metis map_of_eq_None_iff option.distinct(1) set_map)
  then have "ofType artifacts name = Some V"
    using assms by (simp add: ofType_registered)
  then show ?thesis by (simp add: fromJSON_def)
qed

lemma request_rejected:
  assumes "AxiosInstance_request (axiosInstance this) config = rejected e"
  shows "request this config = captureResponseOf this (rejected e)"
  using assms by (simp add: request_def)

lemma request_keeps_client: "axiosInstance (snd (request this config)) = axiosInstance this"
  by (simp add: request_def captureResponseOf_def split: AxiosPromise.splits option.splits)

lemma sample_request:
  "AxiosInstance_request (axiosInstance (new_CallAnApi (failing_client e))) empty_config
     = rejected e"
  by (simp add: AxiosInstance_request_def new_CallAnApi_def failing_client_def rejecting_def)

lemma sample_messages:
  "regex_test timeout_exceeded ''timeout of 2000ms exceeded''"
  "\<not> regex_test timeout_exceeded ''Network Error''"
  "regex_test Network_Error ''Network Error''"
  "\<not> regex_test timeout_exceeded ''url.replace is not a function''"
  "\<not> regex_test Network_Error ''url.replace is not a function''"
  "\<not> regex_test timeout_exceeded ''connect ECONNREFUSED 127.0.0.1:80''"
  "\<not> regex_test Network_Error ''connect ECONNREFUSED 127.0.0.1:80''"
  "\<not> regex_test timeout_exceeded ''Request failed with status code 404''"
  "\<not> regex_test Network_Error ''Request failed with status code 404''"
  by code_simp+

lemma sample_well_formed:
  "well_formed_base64 ''QUJD''" "well_formed_base64 ''QUI=''" "well_formed_base64 ''QQ==''"
  "\<not> well_formed_base64 ''QUJDRA''" "\<not> well_formed_base64 ''Q===''"
  "\<not> well_formed_base64 ''QU-D''"
  unfolding well_formed_base64.simps last_quartet_def base64_char_code by simp_all

lemma sample_base64:
  "looksLikeBase64Encoded ''QUJD''" "looksLikeBase64Encoded ''QUI=''"
  "looksLikeBase64Encoded ''QQ==''" "\<not> looksLikeBase64Encoded ''QUJDRA''"
  "\<not> looksLikeBase64Encoded ''Q===''" "\<not> looksLikeBase64Encoded ''QU-D''"
  unfolding looksLikeBase64Encoded_iff
  by (simp_all only: sample_well_formed list.distinct simp_thms)

lemma sample_keys:
  "map fst sample_artifacts = [''JSONData'', ''Photo'', ''TextData'']"
  by (simp add: sample_artifacts_def)

section \<open>Properties of CallAnApi\<close>

text \<open>
  C1. Whatever the client rejects a request with is looked at once and falls under the
  first of these that applies: its message matches \<open>/timeout.*exceeded/\<close>, and
  \<open>request\<close> rejects with a \<open>TestCompromisedError\<close>; its message matches
  \<open>/Network Error/\<close>, and \<open>request\<close> rejects with a \<open>TestCompromisedError\<close>; it is
  a \<open>TypeError\<close>, and \<open>request\<close> rejects with a \<open>LogicError\<close>; it carries no
  response, and \<open>request\<close> rejects with a \<open>TestCompromisedError\<close>. In all four the
  capability, and so \<open>lastResponse\<close>, is left as it was.
\<close>

theorem rejection_classified:
  assumes "AxiosInstance_request (axiosInstance this) config = rejected e"
  shows
    "(regex_test timeout_exceeded (message e) \<longrightarrow>
        request this config =
          (Inl (TestCompromisedError ''The request has timed out'' (Some e)), this)) \<and>
     (\<not> regex_test timeout_exceeded (message e) \<and> regex_test Network_Error (message e) \<longrightarrow>
        request this config =
          (Inl (TestCompromisedError ''A network error has occurred'' (Some e)), this)) \<and>
     (\<not> regex_test timeout_exceeded (message e) \<and> \<not> regex_test Network_Error (message e) \<and>
      instanceof_TypeError e \<longrightarrow>
        request this config =
          (Inl (LogicError ''Looks like there was an issue with Axios configuration'' (Some e)),
           this)) \<and>
     (\<not> regex_test timeout_exceeded (message e) \<and> \<not> regex_test Network_Error (message e) \<and>
      \<not> instanceof_TypeError e \<and> response e = None \<longrightarrow>
        request this config =
          (Inl (TestCompromisedError ''The API call has failed'' (Some e)), this))"
  unfolding request_rejected [OF assms] by (simp add: captureResponseOf_def)

text \<open>The four cases on a time-out, a network error, a \<open>TypeError\<close> and a refused
  connection.\<close>

theorem rejection_classified_witness:
  "request (new_CallAnApi (failing_client timed_out)) empty_config =
     (Inl (TestCompromisedError ''The request has timed out'' (Some timed_out)),
      new_CallAnApi (failing_client timed_out)) \<and>
   request (new_CallAnApi (failing_client network_down)) empty_config =
     (Inl (TestCompromisedError ''A network error has occurred'' (Some network_down)),
      new_CallAnApi (failing_client network_down)) \<and>
   request (new_CallAnApi (failing_client misconfigured)) empty_config =
     (Inl (LogicError ''Looks like there was an issue with Axios configuration''
        (Some misconfigured)),
      new_CallAnApi (failing_client misconfigured)) \<and>
   request (new_CallAnApi (failing_client refused)) empty_config =
     (Inl (TestCompromisedError ''The API call has failed'' (Some refused)),
      new_CallAnApi (failing_client refused))"
proof -
  have m:
    "message timed_out = ''timeout of 2000ms exceeded''"
    "message network_down = ''Network Error''"
    "message misconfigured = ''url.replace is not a function''"
    "message refused = ''connect ECONNREFUSED 127.0.0.1:80''"
    by (simp_all add: timed_out_def network_down_def misconfigured_def refused_def)
  have t: "regex_test timeout_exceeded (message timed_out)"
    "\<not> regex_test timeout_exceeded (message network_down)"
    "regex_test Network_Error (message network_down)"
    "\<not> regex_test timeout_exceeded (message misconfigured)"
    "\<not> regex_test Network_Error (message misconfigured)"
    "\<not> regex_test timeout_exceeded (message refused)"
    "\<not> regex_test Network_Error (message refused)"
    unfolding m by (rule sample_messages)+
  have k: "instanceof_TypeError misconfigured" "\<not> instanceof_TypeError refused"
    "response refused = None"
    by (simp_all add: misconfigured_def refused_def)
  note c1 = rejection_classified [OF sample_request [of timed_out]]
  note c2 = rejection_classified [OF sample_request [of network_down]]
  note c3 = rejection_classified [OF sample_request [of misconfigured]]
  note c4 = rejection_classified [OF sample_request [of refused]]
  have r1: "request (new_CallAnApi (failing_client timed_out)) empty_config =
     (Inl (TestCompromisedError ''The request has timed out'' (Some timed_out)),
      new_CallAnApi (failing_client timed_out))"
    by (rule mp [OF conjunct1 [OF c1] t(1)])
  have r2: "request (new_CallAnApi (failing_client network_down)) empty_config =
     (Inl (TestCompromisedError ''A network error has occurred'' (Some network_down)),
      new_CallAnApi (failing_client network_down))"
    by (rule mp [OF conjunct1 [OF conjunct2 [OF c2]] conjI [OF t(2) t(3)]])
  have r3: "request (new_CallAnApi (failing_client misconfigured)) empty_config =
     (Inl (LogicError ''Looks like there was an issue with Axios configuration''
        (Some misconfigured)),
      new_CallAnApi (failing_client misconfigured))"
    by (rule mp [OF conjunct1 [OF conjunct2 [OF conjunct2 [OF c3]]]
          conjI [OF t(4) conjI [OF t(5) k(1)]]])
  have r4: "request (new_CallAnApi (failing_client refused)) empty_config =
     (Inl (TestCompromisedError ''The API call has failed'' (Some refused)),
      new_CallAnApi (failing_client refused))"
    by (rule mp [OF conjunct2 [OF conjunct2 [OF conjunct2 [OF c4]]]
          conjI [OF t(6) conjI [OF t(7) conjI [OF k(2) k(3)]]]])
  from r1 r2 r3 r4 show ?thesis by (intro conjI)
qed

text \<open>
  C2, as amended. When the client rejects a request with a value that carries a response,
  and none of the three earlier cases applies (its message matches neither
  \<open>/timeout.*exceeded/\<close> nor \<open>/Network Error/\<close>, and it is not a \<open>TypeError\<close>),
  \<open>request\<close> resolves with that response and stores it as \<open>lastResponse\<close>, and
  \<open>mapLastResponse(r => r.status)\<close> then returns the status of that response.
\<close>

theorem rejection_with_response_resolves:
  assumes "AxiosInstance_request (axiosInstance this) config = rejected e"
    and "\<not> regex_test timeout_exceeded (message e)"
    and "\<not> regex_test Network_Error (message e)"
    and "\<not> instanceof_TypeError e"
    and "response e = Some r"
  shows "request this config = (Inr r, this\<lparr>lastResponse := Some r\<rparr>) \<and>
         mapLastResponse (snd (request this config)) status = Inr (status r)"
  unfolding request_rejected [OF assms(1)] using assms(2-5)
  by (simp add: captureResponseOf_def mapLastResponse_def)

text \<open>A request the server answers with 404.\<close>

theorem rejection_with_response_resolves_witness:
  "request (new_CallAnApi (failing_client status_404)) empty_config =
     (Inr not_found,
      (new_CallAnApi (failing_client status_404))\<lparr>lastResponse := Some not_found\<rparr>) \<and>
   mapLastResponse (snd (request (new_CallAnApi (failing_client status_404)) empty_config)) status
     = Inr 404"
proof -
  have m: "message status_404 = ''Request failed with status code 404''"
    by (simp add: status_404_def)
  have t: "\<not> regex_test timeout_exceeded (message status_404)"
    "\<not> regex_test Network_Error (message status_404)"
    unfolding m by (rule sample_messages)+
  have k: "\<not> instanceof_TypeError status_404" "response status_404 = Some not_found"
    by (simp_all add: status_404_def)
  have s: "status not_found = 404" by (simp add: not_found_def)
  show ?thesis
    using rejection_with_response_resolves [OF sample_request t k] unfolding s .
qed

text \<open>
  Without the condition that no earlier case applies the claim fails: a rejection that
  carries the response 404 and whose message is "timeout of 2000ms exceeded" makes
  \<open>request\<close> reject, and \<open>lastResponse\<close> stays unset.
\<close>

theorem response_with_timeout_message_counterexample:
  "request (new_CallAnApi (failing_client timed_out_with_response)) empty_config =
     (Inl (TestCompromisedError ''The request has timed out'' (Some timed_out_with_response)),
      new_CallAnApi (failing_client timed_out_with_response)) \<and>
   response timed_out_with_response = Some not_found \<and>
   status not_found = 404 \<and>
   lastResponse (new_CallAnApi (failing_client timed_out_with_response)) = None"
proof -
  have "message timed_out_with_response = ''timeout of 2000ms exceeded''"
    by (simp add: timed_out_with_response_def)
  then have "regex_test timeout_exceeded (message timed_out_with_response)"
    by (simp only: sample_messages(1))
  then have c: "captureResponseOf (new_CallAnApi (failing_client timed_out_with_response))
       (rejected timed_out_with_response) =
     (Inl (TestCompromisedError ''The request has timed out'' (Some timed_out_with_response)),
      new_CallAnApi (failing_client timed_out_with_response))"
    by (simp add: captureResponseOf_def)
  have r: "request (new_CallAnApi (failing_client timed_out_with_response)) empty_config =
     captureResponseOf (new_CallAnApi (failing_client timed_out_with_response))
       (rejected timed_out_with_response)"
    by (rule request_rejected [OF sample_request])
  have o: "response timed_out_with_response = Some not_found" "status not_found = 404"
    "lastResponse (new_CallAnApi (failing_client timed_out_with_response)) = None"
    by (simp_all add: timed_out_with_response_def not_found_def new_CallAnApi_def)
  show ?thesis unfolding r c using o by simp
qed

text \<open>
  C6. On a capability that \<open>at\<close> or \<open>using\<close> has just built, and after any
  \<open>modifyConfig\<close> on it, \<open>mapLastResponse(fn)\<close> throws a \<open>LogicError\<close>, as it does
  whenever \<open>lastResponse\<close> is unset; once a response is stored it returns \<open>fn\<close> of
  that response. It reads the capability only: the client is not among the things it is
  given.
\<close>

theorem mapLastResponse_needs_a_response:
  "mapLastResponse (at create baseURL') fn =
     Inl (LogicError ''Make sure to perform a HTTP API call before checking on the response''
       None) \<and>
   mapLastResponse (using' client) fn =
     Inl (LogicError ''Make sure to perform a HTTP API call before checking on the response''
       None) \<and>
   mapLastResponse (modifyConfig this g) fn = mapLastResponse this fn \<and>
   (lastResponse this = None \<longrightarrow> mapLastResponse this fn =
     Inl (LogicError ''Make sure to perform a HTTP API call before checking on the response''
       None)) \<and>
   (\<forall>r. lastResponse this = Some r \<longrightarrow> mapLastResponse this fn = Inr (fn r))"
  by (simp add: mapLastResponse_def at_def using'_def new_CallAnApi_def modifyConfig_def)

text \<open>A fresh capability, and the same capability once it holds the response 404.\<close>

theorem mapLastResponse_needs_a_response_witness:
  "mapLastResponse (new_CallAnApi (failing_client refused)) status =
     Inl (LogicError ''Make sure to perform a HTTP API call before checking on the response''
       None) \<and>
   mapLastResponse ((new_CallAnApi (failing_client refused))\<lparr>lastResponse := Some not_found\<rparr>)
     status = Inr 404"
  using
    mapLastResponse_needs_a_response
      [where fn = status and ?this = "new_CallAnApi (failing_client refused)"]
    mapLastResponse_needs_a_response
      [where fn = status
         and ?this = "(new_CallAnApi (failing_client refused))\<lparr>lastResponse := Some not_found\<rparr>"]
  by (simp add: new_CallAnApi_def not_found_def)

text \<open>
  C7. \<open>at(baseURL)\<close> wraps the client that \<open>axios.create\<close> builds from the base URL,
  a timeout of 2000 and the header \<open>Accept: application/json,application/xml\<close>, so
  these are the defaults of that client whatever the defaults of the library; no response
  is stored yet. \<open>using(client)\<close> wraps the client it is given as it is.
\<close>

theorem at_configures_using_wraps:
  "at create baseURL' =
     using' (create \<lparr>url = None, http_method = None, baseURL = Some baseURL',
       timeout = Some 2000,
       headers = [''Accept'' \<mapsto> ''application/json,application/xml'']\<rparr>) \<and>
   baseURL (defaults (axiosInstance (at (axios_create network library_defaults) baseURL')))
     = Some baseURL' \<and>
   timeout (defaults (axiosInstance (at (axios_create network library_defaults) baseURL')))
     = Some 2000 \<and>
   headers (defaults (axiosInstance (at (axios_create network library_defaults) baseURL')))
     ''Accept'' = Some ''application/json,application/xml'' \<and>
   lastResponse (at create baseURL') = None \<and>
   axiosInstance (using' client) = client \<and>
   lastResponse (using' client) = None"
  by (simp add: at_def using'_def new_CallAnApi_def axios_create_def mergeConfig_def)

theorem at_configures_using_wraps_witness:
  "baseURL (defaults (axiosInstance
      (at (axios_create echoing empty_config) ''https://myapp.com/api'')))
     = Some ''https://myapp.com/api'' \<and>
   timeout (defaults (axiosInstance
      (at (axios_create echoing empty_config) ''https://myapp.com/api'')))
     = Some 2000 \<and>
   headers (defaults (axiosInstance
      (at (axios_create echoing empty_config) ''https://myapp.com/api''))) ''Accept''
     = Some ''application/json,application/xml'' \<and>
   axiosInstance (using' (failing_client refused)) = failing_client refused"
  using at_configures_using_wraps
    [where create = "axios_create echoing empty_config"
       and baseURL' = "''https://myapp.com/api''" and network = echoing
       and library_defaults = empty_config and client = "failing_client refused"]
  by (elim conjE) (intro conjI, assumption+)

text \<open>
  C8. \<open>modifyConfig(fn)\<close> lets \<open>fn\<close> change the defaults of the client and returns
  nothing but the capability so changed. A request made afterwards is sent with its
  configuration merged over the changed defaults, and a request leaves the client as it
  is, so every later request sees them too. After
  \<open>modifyConfig(cfg => cfg.headers['X'] = 'v')\<close> the request \<open>request({})\<close> is sent
  with the header \<open>X: v\<close>.
\<close>

theorem modifyConfig_is_seen_by_request:
  "modifyConfig this fn =
     this\<lparr>axiosInstance :=
       (axiosInstance this)\<lparr>defaults := fn (defaults (axiosInstance this))\<rparr>\<rparr> \<and>
   request (modifyConfig this fn) config =
     captureResponseOf (modifyConfig this fn)
       (adapter (axiosInstance this)
          (mergeConfig (fn (defaults (axiosInstance this))) config)) \<and>
   defaults (axiosInstance (snd (request (modifyConfig this fn) config)))
     = fn (defaults (axiosInstance this)) \<and>
   request (modifyConfig this (set_header ''X'' ''v'')) empty_config =
     captureResponseOf (modifyConfig this (set_header ''X'' ''v''))
       (adapter (axiosInstance this)
          (mergeConfig (set_header ''X'' ''v'' (defaults (axiosInstance this))) empty_config)) \<and>
   headers (mergeConfig (set_header ''X'' ''v'' (defaults (axiosInstance this))) empty_config)
     ''X'' = Some ''v''"
proof (intro conjI)
  show "defaults (axiosInstance (snd (request (modifyConfig this fn) config)))
     = fn (defaults (axiosInstance this))"
    unfolding request_keeps_client by (simp add: modifyConfig_def)
qed (simp_all add: modifyConfig_def request_def AxiosInstance_request_def mergeConfig_def
      set_header_def empty_config_def)

text \<open>A client that answers with the value of the header \<open>X\<close> it was sent.\<close>

theorem modifyConfig_is_seen_by_request_witness:
  "fst (request
      (modifyConfig (using' \<lparr>defaults = empty_config, adapter = echoing\<rparr>)
         (set_header ''X'' ''v''))
      empty_config) =
     Inr \<lparr>status = 200, statusText = ''OK'', data = ''v''\<rparr>"
proof -
  note t = modifyConfig_is_seen_by_request
    [where ?this = "using' \<lparr>defaults = empty_config, adapter = echoing\<rparr>"
       and fn = "set_header ''X'' ''v''" and config = empty_config]
  from t have r:
    "request
       (modifyConfig (using' \<lparr>defaults = empty_config, adapter = echoing\<rparr>)
          (set_header ''X'' ''v''))
       empty_config =
     captureResponseOf
       (modifyConfig (using' \<lparr>defaults = empty_config, adapter = echoing\<rparr>)
          (set_header ''X'' ''v''))
       (adapter (axiosInstance (using' \<lparr>defaults = empty_config, adapter = echoing\<rparr>))
          (mergeConfig
             (set_header ''X'' ''v''
                (defaults
                   (axiosInstance (using' \<lparr>defaults = empty_config, adapter = echoing\<rparr>))))
             empty_config))"
    by (elim conjE)
  show ?thesis
    unfolding r
    by (simp add: using'_def new_CallAnApi_def mergeConfig_def set_header_def empty_config_def
        echoing_def captureResponseOf_def)
qed

section \<open>Properties of Artifact\<close>

text \<open>
  C3, as amended. For a class \<open>V\<close> that the registry holds under its own name and
  every well-formed base64 string \<open>s\<close> that is not empty: \<open>new V(s)\<close> is an
  artifact, and \<open>Artifact.fromJSON(new V(s).toJSON())\<close> is that artifact again, of the
  same class and with the same \<open>base64EncodedValue\<close>. More generally, whenever
  \<open>new V(s)\<close> is an artifact, \<open>fromJSON\<close> of its \<open>toJSON\<close> returns that artifact.
\<close>

theorem artifact_round_trip:
  assumes "map_of artifacts (class_name V) = Some V"
  shows "(s \<noteq> [] \<and> well_formed_base64 s \<longrightarrow>
            new_Artifact V s =
              Inr \<lparr>constructor_name = class_name V, base64EncodedValue = s\<rparr>) \<and>
         (\<forall>a. new_Artifact V s = Inr a \<longrightarrow>
            fromJSON artifacts (toJSON a) = Inr a \<and>
            constructor_name a = class_name V \<and> base64EncodedValue a = s) \<and>
         (s \<noteq> [] \<and> well_formed_base64 s \<longrightarrow>
            round_trip artifacts V s =
              Inr \<lparr>constructor_name = class_name V, base64EncodedValue = s\<rparr>)"
proof -
  have built: "new_Artifact V s =
      Inr \<lparr>constructor_name = class_name V, base64EncodedValue = s\<rparr>"
    if "s \<noteq> [] \<and> well_formed_base64 s"
    using that by (simp add: new_Artifact_def looksLikeBase64Encoded_iff)
  have again: "fromJSON artifacts (toJSON a) = Inr a \<and>
      constructor_name a = class_name V \<and> base64EncodedValue a = s"
    if a: "new_Artifact V s = Inr a" for a
  proof -
    from a have eq: "a = \<lparr>constructor_name = class_name V, base64EncodedValue = s\<rparr>"
      by (auto simp: new_Artifact_def split: if_splits)
    have "fromJSON artifacts (toJSON a) = new_Artifact V s"
      unfolding eq toJSON_def using fromJSON_registered [OF assms] by simp
    with a eq show ?thesis by simp
  qed
  have trip: "round_trip artifacts V s =
      Inr \<lparr>constructor_name = class_name V, base64EncodedValue = s\<rparr>"
    if w: "s \<noteq> [] \<and> well_formed_base64 s"
  proof -
    note n = built [OF w]
    from again [OF n] have "fromJSON artifacts
        (toJSON \<lparr>constructor_name = class_name V, base64EncodedValue = s\<rparr>) =
      Inr \<lparr>constructor_name = class_name V, base64EncodedValue = s\<rparr>"
      by simp
    with n show ?thesis by (simp add: round_trip_def)
  qed
  from built again trip show ?thesis by blast
qed

text \<open>The class \<open>Photo\<close> of the sample registry and the string "QUJD".\<close>

theorem artifact_round_trip_witness:
  "new_Artifact (ArtifactType ''Photo'') ''QUJD'' =
     Inr \<lparr>constructor_name = ''Photo'', base64EncodedValue = ''QUJD''\<rparr> \<and>
   fromJSON sample_artifacts
     (toJSON \<lparr>constructor_name = ''Photo'', base64EncodedValue = ''QUJD''\<rparr>)
     = Inr \<lparr>constructor_name = ''Photo'', base64EncodedValue = ''QUJD''\<rparr> \<and>
   round_trip sample_artifacts (ArtifactType ''Photo'') ''QUJD''
     = Inr \<lparr>constructor_name = ''Photo'', base64EncodedValue = ''QUJD''\<rparr>"
proof -
  have r: "map_of sample_artifacts (class_name (ArtifactType ''Photo''))
      = Some (ArtifactType ''Photo'')"
    by (simp add: sample_artifacts_def)
  have w: "''QUJD'' \<noteq> [] \<and> well_formed_base64 ''QUJD''"
    by (simp only: sample_well_formed list.distinct simp_thms)
  note t = artifact_round_trip [OF r, of "''QUJD''"]
  have n: "new_Artifact (ArtifactType ''Photo'') ''QUJD'' =
     Inr \<lparr>constructor_name = class_name (ArtifactType ''Photo''),
          base64EncodedValue = ''QUJD''\<rparr>"
    by (rule mp [OF conjunct1 [OF t] w])
  have b: "fromJSON sample_artifacts
      (toJSON \<lparr>constructor_name = class_name (ArtifactType ''Photo''),
                base64EncodedValue = ''QUJD''\<rparr>)
     = Inr \<lparr>constructor_name = class_name (ArtifactType ''Photo''),
            base64EncodedValue = ''QUJD''\<rparr>"
    by (rule conjunct1 [OF mp [OF spec [OF conjunct1 [OF conjunct2 [OF t]]] n]])
  have c: "round_trip sample_artifacts (ArtifactType ''Photo'') ''QUJD'' =
     Inr \<lparr>constructor_name = class_name (ArtifactType ''Photo''),
          base64EncodedValue = ''QUJD''\<rparr>"
    by (rule mp [OF conjunct2 [OF conjunct2 [OF t]] w])
  from n b c show ?thesis by simp
qed

text \<open>
  Without "not empty" the claim fails: the empty string is well-formed base64, the class
  \<open>Photo\<close> is registered under its own name, and
  \<open>Artifact.fromJSON(new Photo('').toJSON())\<close> gives no artifact, since the
  constructor throws a validation error.
\<close>

theorem round_trip_empty_string_counterexample:
  "well_formed_base64 [] \<and>
   map_of sample_artifacts (class_name (ArtifactType ''Photo''))
     = Some (ArtifactType ''Photo'') \<and>
   round_trip sample_artifacts (ArtifactType ''Photo'') [] =
     Inl (ValidationError ''Photo should be base64-encoded'')"
proof -
  have "\<not> looksLikeBase64Encoded []" by (simp add: looksLikeBase64Encoded_iff)
  then have "new_Artifact (ArtifactType ''Photo'') [] =
     Inl (ValidationError ''Photo should be base64-encoded'')"
    by (simp add: new_Artifact_def)
  then have "round_trip sample_artifacts (ArtifactType ''Photo'') [] =
     Inl (ValidationError ''Photo should be base64-encoded'')"
    by (simp add: round_trip_def)
  then show ?thesis by (simp add: sample_artifacts_def)
qed

text \<open>
  C4, as amended. Building an artifact of any class, directly or through \<open>fromJSON\<close>,
  succeeds exactly when the string is well-formed base64 and not empty: one or more
  quartets of the base64 alphabet, the last of which may end in \<open>=\<close> or \<open>==\<close>. For
  every other string the constructor throws a validation error, and it does so when the
  artifact is built, so that every artifact holds such a string.
\<close>

theorem artifact_built_iff_nonempty_well_formed:
  "new_Artifact V v =
     (if v \<noteq> [] \<and> well_formed_base64 v
      then Inr \<lparr>constructor_name = class_name V, base64EncodedValue = v\<rparr>
      else Inl (ValidationError (class_name V @ '' should be base64-encoded''))) \<and>
   (map_of artifacts name = Some V \<longrightarrow>
      fromJSON artifacts \<lparr>json_type = name, json_base64EncodedValue = v\<rparr>
        = new_Artifact V v) \<and>
   (\<forall>a. new_Artifact V v = Inr a \<longrightarrow>
      base64EncodedValue a \<noteq> [] \<and> well_formed_base64 (base64EncodedValue a))"
  using fromJSON_registered [of artifacts name V v]
  by (auto simp: new_Artifact_def looksLikeBase64Encoded_iff)

text \<open>"QUI=" is accepted; "QUJDRA", which is not made of quartets, is refused, by the
  constructor and through \<open>fromJSON\<close>.\<close>

theorem artifact_built_iff_nonempty_well_formed_witness:
  "new_Artifact (ArtifactType ''TextData'') ''QUI='' =
     Inr \<lparr>constructor_name = ''TextData'', base64EncodedValue = ''QUI=''\<rparr> \<and>
   new_Artifact (ArtifactType ''TextData'') ''QUJDRA'' =
     Inl (ValidationError ''TextData should be base64-encoded'') \<and>
   fromJSON sample_artifacts
     \<lparr>json_type = ''TextData'', json_base64EncodedValue = ''QUJDRA''\<rparr> =
     Inl (ValidationError ''TextData should be base64-encoded'')"
proof -
  have r: "map_of sample_artifacts ''TextData'' = Some (ArtifactType ''TextData'')"
    by (simp add: sample_artifacts_def)
  have w: "''QUI='' \<noteq> [] \<and> well_formed_base64 ''QUI=''"
    "\<not> (''QUJDRA'' \<noteq> [] \<and> well_formed_base64 ''QUJDRA'')"
    by (simp_all only: sample_well_formed list.distinct simp_thms)
  show ?thesis
    using
      artifact_built_iff_nonempty_well_formed
        [of "ArtifactType ''TextData''" "''QUI=''" sample_artifacts "''TextData''"]
      artifact_built_iff_nonempty_well_formed
        [of "ArtifactType ''TextData''" "''QUJDRA''" sample_artifacts "''TextData''"]
      r w
    by (simp only: if_True if_False ArtifactType.sel simp_thms) simp
qed

text \<open>
  Without "not empty" the claim fails: the empty string is well-formed base64, the
  encoding of no bytes, and the constructor refuses it, directly and through
  \<open>fromJSON\<close>.
\<close>

theorem empty_string_counterexample:
  "well_formed_base64 [] \<and>
   new_Artifact (ArtifactType ''Photo'') [] =
     Inl (ValidationError ''Photo should be base64-encoded'') \<and>
   fromJSON sample_artifacts \<lparr>json_type = ''Photo'', json_base64EncodedValue = []\<rparr> =
     Inl (ValidationError ''Photo should be base64-encoded'')"
proof -
  have "\<not> looksLikeBase64Encoded []" by (simp add: looksLikeBase64Encoded_iff)
  then have n: "new_Artifact (ArtifactType ''Photo'') [] =
     Inl (ValidationError ''Photo should be base64-encoded'')"
    by (simp add: new_Artifact_def)
  have "map_of sample_artifacts ''Photo'' = Some (ArtifactType ''Photo'')"
    by (simp add: sample_artifacts_def)
  from fromJSON_registered [OF this] n show ?thesis by simp
qed

text \<open>
  C5. When the \<open>type\<close> of an envelope is not a name of the registry (and the registry
  exports nothing under the name \<open>undefined\<close>), \<open>fromJSON\<close> throws a
  \<open>LogicError\<close>; its message holds "<type> is not one of the recognised types: "
  followed by the names of the registry joined by ", ", and so holds every one of them.
\<close>

theorem unknown_type_is_a_logic_error:
  assumes "json_type json \<notin> set (map fst artifacts)"
    and "''undefined'' \<notin> set (map fst artifacts)"
  shows "fromJSON artifacts json =
           Inl (LogicError (unknown_type_message (json_type json) (map fst artifacts)) None) \<and>
         sublist (json_type json @ '' is not one of the recognised types: '' @
                    join '', '' (map fst artifacts))
           (unknown_type_message (json_type json) (map fst artifacts)) \<and>
         (\<forall>k \<in> set (map fst artifacts).
            sublist k (unknown_type_message (json_type json) (map fst artifacts)))"
proof (intro conjI ballI)
  show "fromJSON artifacts json =
           Inl (LogicError (unknown_type_message (json_type json) (map fst artifacts)) None)"
    using ofType_unregistered [OF assms] by (simp add: fromJSON_def)
  show m: "sublist (json_type json @ '' is not one of the recognised types: '' @
                    join '', '' (map fst artifacts))
           (unknown_type_message (json_type json) (map fst artifacts))"
    by (rule sublist_unknown_type_message)
  fix k
  assume "k \<in> set (map fst artifacts)"
  then have "sublist k (join '', '' (map fst artifacts))"
    by (rule sublist_join)
  then have "sublist k (json_type json @ '' is not one of the recognised types: '' @
                    join '', '' (map fst artifacts))"
    by (intro sublist_prepend)
  then show "sublist k (unknown_type_message (json_type json) (map fst artifacts))"
    using m by (rule sublist_chain)
qed

text \<open>An envelope of type "Video" read against the sample registry.\<close>

theorem unknown_type_is_a_logic_error_witness:
  "fromJSON sample_artifacts \<lparr>json_type = ''Video'', json_base64EncodedValue = ''QUJD''\<rparr> =
     Inl (LogicError (unknown_type_message ''Video'' [''JSONData'', ''Photo'', ''TextData''])
       None) \<and>
   sublist ''Video is not one of the recognised types: JSONData, Photo, TextData''
     (unknown_type_message ''Video'' [''JSONData'', ''Photo'', ''TextData'']) \<and>
   sublist ''Photo'' (unknown_type_message ''Video'' [''JSONData'', ''Photo'', ''TextData''])"
  using unknown_type_is_a_logic_error
    [of "\<lparr>json_type = ''Video'', json_base64EncodedValue = ''QUJD''\<rparr>" sample_artifacts]
  by (simp add: sample_keys)

text \<open>
  C9. The empty string is refused by the constructor of every class, with a validation
  error: the pattern does not match it, and whatever the pattern matches has at least
  four characters.
\<close>

theorem empty_string_is_refused:
  "new_Artifact V [] = Inl (ValidationError (class_name V @ '' should be base64-encoded'')) \<and>
   \<not> matches base64_regex [] \<and>
   (\<forall>v. matches base64_regex v \<longrightarrow> 4 \<le> length v)"
proof (intro conjI allI impI)
  show e: "\<not> matches base64_regex []"
    using looksLikeBase64Encoded_iff [of "[]"] by (simp add: looksLikeBase64Encoded_def)
  then show "new_Artifact V [] =
      Inl (ValidationError (class_name V @ '' should be base64-encoded''))"
    by (simp add: new_Artifact_def looksLikeBase64Encoded_def)
  fix v
  assume "matches base64_regex v"
  then have "v \<notin> {w. length w < 4}"
    using short_not_quartets [of v] by (auto simp: matches_lang lang_base64_regex)
  then show "4 \<le> length v" by simp
qed

theorem empty_string_is_refused_witness:
  "new_Artifact (ArtifactType ''JSONData'') [] =
     Inl (ValidationError ''JSONData should be base64-encoded'') \<and>
   matches base64_regex ''QQ=='' \<and> 4 \<le> length ''QQ==''"
  using empty_string_is_refused [of "ArtifactType ''JSONData''"] sample_base64(3)
  by (simp add: looksLikeBase64Encoded_def)

text \<open>
  C10. \<open>ofType(name)\<close> returns the class the registry holds under exactly that name
  when there is one, and \<open>undefined\<close> when there is none (the registry exporting
  nothing under the name \<open>undefined\<close>); it has no other outcome.
\<close>

theorem ofType_looks_the_name_up:
  "(name \<in> set (map fst artifacts) \<longrightarrow>
      ofType artifacts name = map_of artifacts name \<and>
      (\<exists>V. ofType artifacts name = Some V \<and> (name, V) \<in> set artifacts)) \<and>
   (name \<notin> set (map fst artifacts) \<and> ''undefined'' \<notin> set (map fst artifacts) \<longrightarrow>
      ofType artifacts name = None)"
  using ofType_registered [of name artifacts] map_of_registered [of name artifacts]
    ofType_unregistered [of name artifacts]
  by auto

text \<open>"Photo" is found; "photo" and "undefined" are not.\<close>

theorem ofType_looks_the_name_up_witness:
  "ofType sample_artifacts ''Photo'' = Some (ArtifactType ''Photo'') \<and>
   ofType sample_artifacts ''photo'' = None \<and>
   ofType sample_artifacts ''undefined'' = None"
  using ofType_looks_the_name_up [of "''Photo''" sample_artifacts]
    ofType_looks_the_name_up [of "''photo''" sample_artifacts]
    ofType_looks_the_name_up [of "''undefined''" sample_artifacts]
  by (simp add: sample_keys) (simp add: sample_artifacts_def)

end
